theory Spec2Isabelle
  imports Main "HOL-Library.AList" "HOL-Library.Char_ord" "HOL-Library.List_Lexorder"
begin

section \<open>The Smart Data Storage engine of device-cloud-python\<close>

text \<open>
  A shallow embedding of \<^verbatim>\<open>device_cloud/sds.py\<close> (class \<^verbatim>\<open>SmartDataStorage\<close>).
  The sqlite connection is an explicit state \<open>env\<close> that every operation takes and
  returns; a Python exception is the \<open>Inl\<close> branch of a sum; the SQL text the
  methods build is a value of the datatype \<open>stmt\<close>, with its meaning given by
  \<open>exec_stmt\<close> and \<open>query\<close>.  The logger is a fire-and-forget collaborator and is
  left out.
\<close>

subsection \<open>Python values\<close>

text \<open>
  The values that callers pass and that rows hold: \<^verbatim>\<open>None\<close>, booleans, numbers and
  strings.  Numbers are unbounded integers: the REAL columns of the tables are used
  with integral samples in every claim, and on those Python's arithmetic and
  comparisons are exact.
\<close>

datatype pyval = PyNone | PyBool bool | PyNum int | PyStr string

datatype error = UnboundLocalError | KeyError | TypeError

text \<open>
  The status codes of \<^verbatim>\<open>device_cloud._core.constants\<close> (re-exported as
  \<^verbatim>\<open>iot.STATUS_*\<close>).  That module is not among the sources: every name the
  storage class reads from it (\<^verbatim>\<open>STATUS_SUCCESS\<close>, \<^verbatim>\<open>STATUS_FAILURE\<close>,
  \<^verbatim>\<open>STATUS_FULL\<close>, \<^verbatim>\<open>STATUS_STATUS_FULL\<close>) is taken to be defined there, and the
  codes are taken as distinct symbolic values, with one more constructor for every
  other code a sender may return.
\<close>

datatype status =
  STATUS_SUCCESS | STATUS_FAILURE | STATUS_FULL | STATUS_STATUS_FULL | STATUS_OTHER nat

text \<open>Python's truth value of an object, as used by \<^verbatim>\<open>if x:\<close> and \<^verbatim>\<open>if not x:\<close>.\<close>

fun truthy :: "pyval \<Rightarrow> bool" where
  "truthy PyNone = False"
| "truthy (PyBool b) = b"
| "truthy (PyNum n) = (n \<noteq> 0)"
| "truthy (PyStr s) = (s \<noteq> [])"

text \<open>A boolean is an integer in Python: \<^verbatim>\<open>True == 1\<close>.\<close>

fun as_num :: "pyval \<Rightarrow> int option" where
  "as_num (PyNum n) = Some n"
| "as_num (PyBool b) = Some (if b then 1 else 0)"
| "as_num PyNone = None"
| "as_num (PyStr s) = None"

definition py_eq :: "pyval \<Rightarrow> pyval \<Rightarrow> bool" where
  "py_eq a b =
     (case (as_num a, as_num b) of
        (Some x, Some y) \<Rightarrow> x = y
      | _ \<Rightarrow> a = b)"

text \<open>
  Ordering comparisons follow Python 3: two numbers compare by value, two strings
  lexicographically, and any other pair raises \<^verbatim>\<open>TypeError\<close>.
\<close>

definition py_lt :: "pyval \<Rightarrow> pyval \<Rightarrow> error + bool" where
  "py_lt a b =
     (case (as_num a, as_num b) of
        (Some x, Some y) \<Rightarrow> Inr (x < y)
      | _ \<Rightarrow> (case (a, b) of
                (PyStr s, PyStr t) \<Rightarrow> Inr (s < t)
              | _ \<Rightarrow> Inl TypeError))"

definition py_gt :: "pyval \<Rightarrow> pyval \<Rightarrow> error + bool" where
  "py_gt a b = py_lt b a"

definition py_le :: "pyval \<Rightarrow> pyval \<Rightarrow> error + bool" where
  "py_le a b =
     (case (as_num a, as_num b) of
        (Some x, Some y) \<Rightarrow> Inr (x \<le> y)
      | _ \<Rightarrow> (case (a, b) of
                (PyStr s, PyStr t) \<Rightarrow> Inr (s \<le> t)
              | _ \<Rightarrow> Inl TypeError))"

definition py_ge :: "pyval \<Rightarrow> pyval \<Rightarrow> error + bool" where
  "py_ge a b = py_le b a"

text \<open>\<^verbatim>\<open>curr - plus_minus\<close> and \<^verbatim>\<open>curr + plus_minus\<close> with a numeric \<^verbatim>\<open>plus_minus\<close>.\<close>

definition py_sub :: "pyval \<Rightarrow> int \<Rightarrow> error + pyval" where
  "py_sub a d = (case as_num a of Some x \<Rightarrow> Inr (PyNum (x - d)) | None \<Rightarrow> Inl TypeError)"

definition py_add :: "pyval \<Rightarrow> int \<Rightarrow> error + pyval" where
  "py_add a d = (case as_num a of Some x \<Rightarrow> Inr (PyNum (x + d)) | None \<Rightarrow> Inl TypeError)"

subsection \<open>Class constants\<close>

abbreviation TELEMETRY :: string where "TELEMETRY \<equiv> ''telemetry''"
abbreviation LOCATION :: string where "LOCATION \<equiv> ''location''"
abbreviation ATTRIBUTE :: string where "ATTRIBUTE \<equiv> ''attribute''"
abbreviation ALARM :: string where "ALARM \<equiv> ''alarm''"

abbreviation STATE_SENT :: string where "STATE_SENT \<equiv> ''sent''"
abbreviation STATE_UNSENT :: string where "STATE_UNSENT \<equiv> ''unsent''"
abbreviation STATE_REMOVE :: string where "STATE_REMOVE \<equiv> ''remove''"
abbreviation STATE_RETAIN :: string where "STATE_RETAIN \<equiv> ''retain''"
abbreviation STATE_PUBLISHED :: string where "STATE_PUBLISHED \<equiv> ''published''"
abbreviation STATE_IGNORE :: string where "STATE_IGNORE \<equiv> ''ignore''"

abbreviation TELEMETRY_VALUE :: string where "TELEMETRY_VALUE \<equiv> ''value''"
abbreviation LOCATION_LATITUDE :: string where "LOCATION_LATITUDE \<equiv> ''latitude''"
abbreviation LOCATION_LONGITUDE :: string where "LOCATION_LONGITUDE \<equiv> ''longitude''"
abbreviation LOCATION_HEADING :: string where "LOCATION_HEADING \<equiv> ''heading''"
abbreviation LOCATION_ALTITUDE :: string where "LOCATION_ALTITUDE \<equiv> ''altitude''"
abbreviation LOCATION_SPEED :: string where "LOCATION_SPEED \<equiv> ''speed''"
abbreviation LOCATION_ACCURACY :: string where "LOCATION_ACCURACY \<equiv> ''accuracy''"

abbreviation STORAGE_MAX_DAYS :: string where "STORAGE_MAX_DAYS \<equiv> ''max_days''"
abbreviation STORAGE_LIMITED :: string where "STORAGE_LIMITED \<equiv> ''limited''"

definition STORAGE_LIMITED_MAX :: int where [simp]: "STORAGE_LIMITED_MAX = 1000000"
definition STORAGE_LIMITED_NUM_TO_AGE :: int where [simp]: "STORAGE_LIMITED_NUM_TO_AGE = 20"

definition STORAGE_AGE_OLDEST :: int where [simp]: "STORAGE_AGE_OLDEST = 1"

definition table_list :: "string list" where
  "table_list = [TELEMETRY, LOCATION, ATTRIBUTE, ALARM]"

definition field_list :: "string list" where
  "field_list = [TELEMETRY_VALUE, LOCATION_LATITUDE, LOCATION_LONGITUDE, LOCATION_HEADING,
                 LOCATION_ALTITUDE, LOCATION_SPEED, LOCATION_ACCURACY]"

text \<open>The retention settings of an instance, which callers tune by assignment.\<close>

record sds =
  retention_policy :: string
  retention_drop_mode :: int
  max_days_to_retain :: int
  retain_max_entries :: int
  num_to_age :: int

definition init_sds :: sds where
  "init_sds = \<lparr> retention_policy = STORAGE_LIMITED,
                 retention_drop_mode = STORAGE_AGE_OLDEST,
                 max_days_to_retain = 31,
                 retain_max_entries = STORAGE_LIMITED_MAX,
                 num_to_age = STORAGE_LIMITED_NUM_TO_AGE \<rparr>"

subsection \<open>The sqlite backend\<close>

text \<open>
  The column names of the four tables, in the order of the \<^verbatim>\<open>CREATE TABLE\<close>
  statements of the constructor.  No other table exists.
\<close>

definition columns :: "string \<Rightarrow> string list" where
  "columns table =
     (if table = TELEMETRY then
        [''idx'', ''data_type'', ''name'', ''value'', ''msg'', ''ts'', ''desc'', ''status'']
      else if table = LOCATION then
        [''idx'', ''data_type'', ''name'', ''latitude'', ''longitude'', ''heading'',
         ''altitude'', ''speed'', ''accuracy'', ''fix_type'', ''msg'', ''ts'', ''status'']
      else if table = ALARM then
        [''idx'', ''data_type'', ''name'', ''alarm_state'', ''msg'', ''repub'', ''ts'',
         ''corr_id'', ''lat'', ''lng'', ''desc'', ''status'']
      else if table = ATTRIBUTE then
        [''idx'', ''data_type'', ''name'', ''corr_id'', ''desc'', ''repub'', ''ts'', ''status'']
      else [])"

definition table_exists :: "string \<Rightarrow> bool" where
  "table_exists table = (columns table \<noteq> [])"

fun col_index :: "string list \<Rightarrow> string \<Rightarrow> nat option" where
  "col_index [] c = None"
| "col_index (x # xs) c = (if x = c then Some 0 else map_option Suc (col_index xs c))"

text \<open>
  A row: the integer primary key \<^verbatim>\<open>idx\<close> and the other columns in order.
  \<open>cell r i\<close> is the tuple component \<^verbatim>\<open>r[i]\<close> of a fetched row.
\<close>

record row =
  idx :: int
  cols :: "pyval list"

definition cell :: "row \<Rightarrow> nat \<Rightarrow> pyval" where
  "cell r i = (if i = 0 then PyNum (idx r) else cols r ! (i - 1))"

definition set_cell :: "row \<Rightarrow> nat \<Rightarrow> pyval \<Rightarrow> row" where
  "set_cell r i v = (if i = 0 then r else r\<lparr>cols := (cols r)[i - 1 := v]\<rparr>)"

text \<open>
  A table: its rows in ascending order of \<^verbatim>\<open>idx\<close>, and the AUTOINCREMENT counter
  sqlite keeps for it (the largest key ever handed out).
\<close>

record table =
  rows :: "row list"
  seq :: int

text \<open>The statements the class sends to sqlite.\<close>

datatype stmt =
    CountRows string
  | InsertRow string "pyval list"
  | SelectStatus string string
  | SelectAll string
  | UpdateStatus string pyval string
  | DeleteOldest string int
  | DeleteOlder string int
  | TableInfo string

text \<open>
  The world an operation runs in: the tables; a schedule of backend faults (one flag
  is consumed by every statement sent, \<open>True\<close> makes it raise \<^verbatim>\<open>conn.Error\<close>; an
  exhausted schedule means no fault); the statements sent so far; and the clock,
  as \<^verbatim>\<open>datetime.utcnow()\<close> formatted by \<^verbatim>\<open>insert\<close> and as sqlite's
  \<^verbatim>\<open>datetime('now', '-d days')\<close> (\<open>None\<close> when sqlite yields NULL).
\<close>

record env =
  tables :: "string \<Rightarrow> table"
  faults :: "bool list"
  trace :: "stmt list"
  utcnow :: string
  days_ago :: "int \<Rightarrow> string option"

definition issue :: "stmt \<Rightarrow> env \<Rightarrow> bool \<times> env" where
  "issue s e =
     (case faults e of
        [] \<Rightarrow> (False, e\<lparr>trace := trace e @ [s]\<rparr>)
      | f # fs \<Rightarrow> (f, e\<lparr>faults := fs, trace := trace e @ [s]\<rparr>))"

text \<open>sqlite's adapter stores a Python boolean as the integer 0 or 1.\<close>

fun adapt :: "pyval \<Rightarrow> pyval" where
  "adapt (PyBool b) = PyNum (if b then 1 else 0)"
| "adapt v = v"

text \<open>
  The key of a new row of an AUTOINCREMENT table: one more than the largest key
  the table has ever held.
\<close>

definition next_rowid :: "table \<Rightarrow> int" where
  "next_rowid t = fold (\<lambda>r m. max (idx r) m) (rows t) (seq t) + 1"

text \<open>\<^verbatim>\<open>LIMIT n\<close>: a negative \<open>n\<close> is no limit.\<close>

definition limit :: "int \<Rightarrow> 'a list \<Rightarrow> 'a list" where
  "limit n xs = (if n < 0 then xs else take (nat n) xs)"

definition is_old :: "string \<Rightarrow> string option \<Rightarrow> row \<Rightarrow> bool" where
  "is_old table cutoff r =
     (case (col_index (columns table) ''ts'', cutoff) of
        (Some i, Some c) \<Rightarrow> (case cell r i of PyStr s \<Rightarrow> s < c | _ \<Rightarrow> False)
      | _ \<Rightarrow> False)"

definition has_status :: "string \<Rightarrow> string \<Rightarrow> row \<Rightarrow> bool" where
  "has_status table st r =
     (case col_index (columns table) ''status'' of
        Some i \<Rightarrow> cell r i = PyStr st
      | None \<Rightarrow> False)"

definition put_status :: "string \<Rightarrow> int \<Rightarrow> string \<Rightarrow> row \<Rightarrow> row" where
  "put_status table i st r =
     (case col_index (columns table) ''status'' of
        Some j \<Rightarrow> (if idx r = i then set_cell r j (PyStr st) else r)
      | None \<Rightarrow> r)"

text \<open>
  The effect of a writing statement on the tables; \<open>None\<close> is an sqlite error
  (no such table, wrong number of values, a key that is not a number).
  \<^item> \<^verbatim>\<open>INSERT INTO t VALUES(null,?,...)\<close>
  \<^item> \<^verbatim>\<open>UPDATE t SET status = 'st' WHERE idx = i\<close>
  \<^item> \<^verbatim>\<open>DELETE FROM t WHERE idx IN (SELECT idx FROM t ORDER BY idx ASC LIMIT n)\<close>
  \<^item> \<^verbatim>\<open>DELETE FROM t WHERE idx IN (SELECT idx FROM t WHERE ts < datetime('now', '-d days') ORDER BY idx)\<close>
\<close>

fun exec_stmt :: "stmt \<Rightarrow> env \<Rightarrow> (string \<Rightarrow> table) option" where
  "exec_stmt (InsertRow t vs) e =
     (if table_exists t \<and> Suc (length vs) = length (columns t) then
        (let tb = tables e t; k = next_rowid tb
         in Some ((tables e)(t := \<lparr>rows = rows tb @ [\<lparr>idx = k, cols = map adapt vs\<rparr>], seq = k\<rparr>)))
      else None)"
| "exec_stmt (UpdateStatus t i st) e =
     (if table_exists t then
        (case i of
           PyNum k \<Rightarrow> Some ((tables e)(t := (tables e t)\<lparr>rows := map (put_status t k st) (rows (tables e t))\<rparr>))
         | _ \<Rightarrow> None)
      else None)"
| "exec_stmt (DeleteOldest t n) e =
     (if table_exists t then
        (let tb = tables e t; victims = limit n (sort (map idx (rows tb)))
         in Some ((tables e)(t := tb\<lparr>rows := filter (\<lambda>r. idx r \<notin> set victims) (rows tb)\<rparr>)))
      else None)"
| "exec_stmt (DeleteOlder t d) e =
     (if table_exists t then
        (let tb = tables e t; victims = map idx (filter (is_old t (days_ago e d)) (rows tb))
         in Some ((tables e)(t := tb\<lparr>rows := filter (\<lambda>r. idx r \<notin> set victims) (rows tb)\<rparr>)))
      else None)"
| "exec_stmt s e = Some (tables e)"

text \<open>The rows a \<^verbatim>\<open>SELECT *\<close> yields, in key order; \<open>None\<close> is an sqlite error.\<close>

fun query :: "stmt \<Rightarrow> env \<Rightarrow> row list option" where
  "query (SelectAll t) e = (if table_exists t then Some (rows (tables e t)) else None)"
| "query (SelectStatus t st) e =
     (if table_exists t then Some (filter (has_status t st) (rows (tables e t))) else None)"
| "query s e = None"

text \<open>
  \<^verbatim>\<open>begin; <statement>; commit\<close> inside \<^verbatim>\<open>try\<close>, with \<^verbatim>\<open>rollback\<close> in the handler
  of \<^verbatim>\<open>conn.Error\<close>: the pattern shared by \<^verbatim>\<open>insert\<close>, \<^verbatim>\<open>update_state\<close> and
  \<^verbatim>\<open>custom_sql_command\<close>.
\<close>

definition transaction :: "stmt \<Rightarrow> env \<Rightarrow> status \<times> env" where
  "transaction s e =
     (let (failed, e1) = issue s e
      in if failed then (STATUS_FAILURE, e1)
         else (case exec_stmt s e1 of
                 None \<Rightarrow> (STATUS_FAILURE, e1)
               | Some tbs \<Rightarrow> (STATUS_SUCCESS, e1\<lparr>tables := tbs\<rparr>)))"

subsection \<open>The methods of SmartDataStorage\<close>

definition is_type_valid :: "string \<Rightarrow> bool" where
  "is_type_valid table = (table \<in> set table_list)"

text \<open>
  \<^verbatim>\<open>get_row_count\<close>.  For a table that is not supported the method assigns
  \<^verbatim>\<open>rows = []\<close> and then reads the local \<^verbatim>\<open>count\<close>, which was never bound.
  \<^verbatim>\<open>fetchone()\<close> of \<^verbatim>\<open>SELECT count(idx)\<close> is a one-element tuple, which is
  true, so \<^verbatim>\<open>count[0]\<close> is returned.
\<close>

definition get_row_count :: "string \<Rightarrow> env \<Rightarrow> (error + int) \<times> env" where
  "get_row_count table e =
     (if \<not> is_type_valid table then (Inl UnboundLocalError, e)
      else
        (let (failed, e1) = issue (CountRows table) e
         in if failed then (Inr 0, e1)
            else (Inr (int (length (rows (tables e1 table)))), e1)))"

definition custom_sql_command :: "stmt \<Rightarrow> env \<Rightarrow> status \<times> env" where
  "custom_sql_command sql e = transaction sql e"

definition update_state :: "string \<Rightarrow> pyval \<Rightarrow> string \<Rightarrow> env \<Rightarrow> status \<times> env" where
  "update_state table i st e = transaction (UpdateStatus table i st) e"

text \<open>
  \<^verbatim>\<open>get_table_info\<close>: the dictionary from column name to position.  When the
  pragma raises, \<^verbatim>\<open>rows\<close> is unbound at the loop that follows.
\<close>

definition get_table_info :: "string \<Rightarrow> env \<Rightarrow> (error + (string \<Rightarrow> nat option)) \<times> env" where
  "get_table_info table e =
     (let (failed, e1) = issue (TableInfo table) e
      in if failed then (Inl UnboundLocalError, e1)
         else (Inr (col_index (columns table)), e1))"

definition apply_retention_policy :: "sds \<Rightarrow> string \<Rightarrow> env \<Rightarrow> (error + status) \<times> env" where
  "apply_retention_policy self table e =
     (case
        (if retention_policy self = STORAGE_LIMITED then
           (case get_row_count table e of
              (Inl err, e1) \<Rightarrow> (Inl err, e1)
            | (Inr count, e1) \<Rightarrow>
                if count \<ge> retain_max_entries self then
                  if retention_drop_mode self = STORAGE_AGE_OLDEST then
                    (let (ret, e2) = custom_sql_command (DeleteOldest table (num_to_age self)) e1
                     in (Inr ret, e2))
                  else (Inr STATUS_STATUS_FULL, e1)
                else (Inr STATUS_SUCCESS, e1))
         else (Inr STATUS_SUCCESS, e))
      of
        (Inl err, e1) \<Rightarrow> (Inl err, e1)
      | (Inr ret, e1) \<Rightarrow>
          if retention_policy self = STORAGE_MAX_DAYS then
            if max_days_to_retain self \<noteq> 0 then
              (let (ret2, e2) = custom_sql_command (DeleteOlder table (max_days_to_retain self)) e1
               in (Inr ret2, e2))
            else (Inr ret, e1)
          else (Inr ret, e1))"

text \<open>The keyword arguments of \<^verbatim>\<open>insert\<close>, and their defaults.\<close>

record insert_args =
  arg_state :: pyval
  arg_name :: pyval
  arg_msg :: pyval
  arg_ts :: pyval
  arg_value :: pyval
  arg_latitude :: pyval
  arg_longitude :: pyval
  arg_heading :: pyval
  arg_altitude :: pyval
  arg_speed :: pyval
  arg_accuracy :: pyval
  arg_fix_type :: pyval
  arg_alarm_state :: pyval
  arg_republish :: pyval

definition insert_defaults :: insert_args where
  "insert_defaults =
     \<lparr> arg_state = PyStr STATE_UNSENT, arg_name = PyNone, arg_msg = PyStr [], arg_ts = PyNone,
       arg_value = PyNone,
       arg_latitude = PyNone, arg_longitude = PyNone, arg_heading = PyNone,
       arg_altitude = PyNone, arg_speed = PyNone, arg_accuracy = PyNone, arg_fix_type = PyNone,
       arg_alarm_state = PyNone, arg_republish = PyBool False \<rparr>"

text \<open>
  The tuple \<^verbatim>\<open>values\<close> that \<^verbatim>\<open>insert\<close> binds for the table; no branch binds
  \<^verbatim>\<open>sql\<close> and \<^verbatim>\<open>values\<close> for the attribute table.
\<close>

definition insert_values :: "string \<Rightarrow> insert_args \<Rightarrow> pyval \<Rightarrow> pyval \<Rightarrow> pyval list option" where
  "insert_values table a state ts =
     (if TELEMETRY = table then
        Some [PyStr table, arg_name a, arg_value a, arg_msg a, ts, PyStr ''desc'', state]
      else if LOCATION = table then
        Some [PyStr ''location'', PyStr ''location'', arg_latitude a, arg_longitude a,
              arg_heading a, arg_altitude a, arg_speed a, arg_accuracy a, arg_fix_type a,
              arg_msg a, ts, state]
      else if ALARM = table then
        Some [PyStr table, arg_name a, arg_alarm_state a, arg_msg a, arg_republish a,
              ts, PyNone, PyNone, PyNone, PyNone, state]
      else None)"

text \<open>
  \<^verbatim>\<open>insert\<close>.  The status of \<^verbatim>\<open>apply_retention_policy\<close> is dropped.  For the
  attribute table the use of the unbound \<^verbatim>\<open>sql\<close> raises after the retention step
  (the \<^verbatim>\<open>begin\<close> sent just before it is not recorded).
\<close>

definition insert_sds :: "sds \<Rightarrow> string \<Rightarrow> insert_args \<Rightarrow> env \<Rightarrow> (error + status) \<times> env" where
  "insert_sds self table a e =
     (let state = (if \<not> truthy (arg_state a) then PyStr STATE_SENT else arg_state a);
          ts = (if \<not> truthy (arg_ts a) then PyStr (utcnow e) else arg_ts a)
      in if \<not> is_type_valid table then (Inr STATUS_FULL, e)
         else
           (case apply_retention_policy self table e of
              (Inl err, e1) \<Rightarrow> (Inl err, e1)
            | (Inr ret, e1) \<Rightarrow>
                (case insert_values table a state ts of
                   None \<Rightarrow> (Inl UnboundLocalError, e1)
                 | Some values \<Rightarrow>
                     (let (st, e2) = transaction (InsertRow table values) e1
                      in (Inr st, e2)))))"

text \<open>
  The three wrappers.  Their own defaults are \<^verbatim>\<open>None\<close> (and \<^verbatim>\<open>False\<close> for
  \<^verbatim>\<open>republish\<close>); a caller that omits an argument passes that default.
\<close>

definition insert_alarm ::
  "sds \<Rightarrow> pyval \<Rightarrow> pyval \<Rightarrow> pyval \<Rightarrow> pyval \<Rightarrow> pyval \<Rightarrow> pyval \<Rightarrow> env \<Rightarrow> (error + status) \<times> env" where
  "insert_alarm self name alarm_state msg republish ts state e =
     insert_sds self ALARM
       (insert_defaults\<lparr>arg_name := name, arg_alarm_state := alarm_state, arg_msg := msg,
                        arg_republish := republish, arg_ts := ts, arg_state := state\<rparr>) e"

definition insert_telemetry ::
  "sds \<Rightarrow> pyval \<Rightarrow> pyval \<Rightarrow> pyval \<Rightarrow> pyval \<Rightarrow> pyval \<Rightarrow> env \<Rightarrow> (error + status) \<times> env" where
  "insert_telemetry self name v msg ts state e =
     insert_sds self TELEMETRY
       (insert_defaults\<lparr>arg_name := name, arg_value := v, arg_msg := msg,
                        arg_ts := ts, arg_state := state\<rparr>) e"

record location_args =
  loc_latitude :: pyval
  loc_longitude :: pyval
  loc_speed :: pyval
  loc_heading :: pyval
  loc_altitude :: pyval
  loc_accuracy :: pyval
  loc_fix_type :: pyval
  loc_msg :: pyval
  loc_ts :: pyval
  loc_state :: pyval

definition insert_location :: "sds \<Rightarrow> location_args \<Rightarrow> env \<Rightarrow> (error + status) \<times> env" where
  "insert_location self l e =
     insert_sds self LOCATION
       (insert_defaults\<lparr>arg_latitude := loc_latitude l,
                        arg_longitude := loc_latitude l, arg_heading := loc_heading l,
                        arg_altitude := loc_altitude l, arg_speed := loc_speed l,
                        arg_accuracy := loc_accuracy l,
                        arg_fix_type := loc_fix_type l, arg_msg := loc_msg l,
                        arg_ts := loc_ts l, arg_state := loc_state l\<rparr>) e"

text \<open>
  \<^verbatim>\<open>select_all_by_state\<close> and \<^verbatim>\<open>select_table\<close>: the cursor, as the list of rows it
  yields, or \<^verbatim>\<open>None\<close>.
\<close>

definition select_all_by_state :: "string \<Rightarrow> string \<Rightarrow> env \<Rightarrow> row list option \<times> env" where
  "select_all_by_state table state e =
     (if \<not> is_type_valid table then (None, e)
      else
        (let (failed, e1) = issue (SelectStatus table state) e
         in if failed then (None, e1) else (query (SelectStatus table state) e1, e1)))"

definition select_table :: "string \<Rightarrow> env \<Rightarrow> row list option \<times> env" where
  "select_table table e =
     (if \<not> is_type_valid table then (None, e)
      else
        (let (failed, e1) = issue (SelectAll table) e
         in if failed then (None, e1) else (query (SelectAll table) e1, e1)))"

text \<open>
  The variables \<^verbatim>\<open>curr\<close> and \<^verbatim>\<open>last\<close> of the source are \<open>currv\<close> and \<open>lastv\<close>
  here, since HOL has constants of those names.

  The test of \<^verbatim>\<open>data_smooth_on_change\<close> on one row, once \<^verbatim>\<open>last\<close> is true: the
  \<^verbatim>\<open>if\<close>/\<^verbatim>\<open>elif\<close>/\<^verbatim>\<open>elif\<close> chain, with \<^verbatim>\<open>and\<close> evaluating its right operand
  only when the left one holds.  \<open>Inr True\<close> when the row is appended to
  \<^verbatim>\<open>ignore_list\<close>.
\<close>

definition insignificant :: "pyval \<Rightarrow> pyval \<Rightarrow> int \<Rightarrow> error + bool" where
  "insignificant currv lastv plus_minus =
     (if py_eq currv lastv then Inr True
      else
        (case py_gt currv lastv of
           Inl err \<Rightarrow> Inl err
         | Inr gt \<Rightarrow>
             (case (if gt then
                      (case py_sub currv plus_minus of
                         Inl err \<Rightarrow> Inl err
                       | Inr d \<Rightarrow> py_le d lastv)
                    else Inr False) of
                Inl err \<Rightarrow> Inl err
              | Inr True \<Rightarrow> Inr True
              | Inr False \<Rightarrow>
                  (case py_lt currv lastv of
                     Inl err \<Rightarrow> Inl err
                   | Inr lt \<Rightarrow>
                       (if lt then
                          (case py_add currv plus_minus of
                             Inl err \<Rightarrow> Inl err
                           | Inr d \<Rightarrow> py_ge d lastv)
                        else Inr False)))))"

text \<open>
  The loop \<^verbatim>\<open>for row in c\<close> of \<^verbatim>\<open>data_smooth_on_change\<close>, with the loop variables
  \<^verbatim>\<open>last\<close> and \<^verbatim>\<open>ignore_list\<close> as arguments.
\<close>

fun scan :: "nat \<Rightarrow> nat \<Rightarrow> int \<Rightarrow> pyval \<Rightarrow> pyval list \<Rightarrow> row list \<Rightarrow> error + pyval list" where
  "scan field_idx idx_idx plus_minus lastv ignore_list [] = Inr ignore_list"
| "scan field_idx idx_idx plus_minus lastv ignore_list (r # rs) =
     (let currv = cell r field_idx; i = cell r idx_idx
      in if truthy lastv then
           (case insignificant currv lastv plus_minus of
              Inl err \<Rightarrow> Inl err
            | Inr True \<Rightarrow> scan field_idx idx_idx plus_minus currv (ignore_list @ [i]) rs
            | Inr False \<Rightarrow> scan field_idx idx_idx plus_minus currv ignore_list rs)
         else scan field_idx idx_idx plus_minus currv ignore_list rs)"

text \<open>The loop \<^verbatim>\<open>for i in ignore_list\<close>: the status of each update is only logged.\<close>

fun update_all :: "string \<Rightarrow> string \<Rightarrow> pyval list \<Rightarrow> env \<Rightarrow> env" where
  "update_all table st [] e = e"
| "update_all table st (i # is) e = update_all table st is (snd (update_state table i st e))"

text \<open>
  \<^verbatim>\<open>data_smooth_on_change\<close>.  The result \<open>None\<close> is Python's \<^verbatim>\<open>None\<close>, returned
  for a field that is not in \<^verbatim>\<open>field_list\<close>.  A failed \<^verbatim>\<open>SELECT\<close> is logged and
  the cursor then yields no row.  The argument \<^verbatim>\<open>state\<close> is not read by the
  method: the update loop writes \<^verbatim>\<open>STATE_IGNORE\<close>.
\<close>

definition data_smooth_on_change ::
  "string \<Rightarrow> string \<Rightarrow> int \<Rightarrow> string \<Rightarrow> env \<Rightarrow> (error + pyval list option) \<times> env" where
  "data_smooth_on_change table field_name plus_minus state e =
     (if field_name \<notin> set field_list then (Inr None, e)
      else
        (case get_table_info table e of
           (Inl err, e1) \<Rightarrow> (Inl err, e1)
         | (Inr t, e1) \<Rightarrow>
             (case t field_name of
                None \<Rightarrow> (Inl KeyError, e1)
              | Some field_idx \<Rightarrow>
                  (case t ''status'' of
                     None \<Rightarrow> (Inl KeyError, e1)
                   | Some state_idx \<Rightarrow>
                       (case t ''idx'' of
                          None \<Rightarrow> (Inl KeyError, e1)
                        | Some idx_idx \<Rightarrow>
                            (let (failed, e2) = issue (SelectStatus table STATE_UNSENT) e1;
                                 c = (if failed then []
                                      else (case query (SelectStatus table STATE_UNSENT) e2 of
                                              None \<Rightarrow> []
                                            | Some rs \<Rightarrow> rs))
                             in (case scan field_idx idx_idx plus_minus PyNone [] c of
                                   Inl err \<Rightarrow> (Inl err, e2)
                                 | Inr ignore_list \<Rightarrow>
                                     (Inr (Some ignore_list),
                                      update_all table STATE_IGNORE ignore_list e2))))))))"

subsection \<open>Publishing\<close>

text \<open>
  The upstream client is outside the repository.  A sender is a function from the
  number of the call (counted from 0 within one publish) and the arguments it is
  given to the status it returns.
\<close>

record client =
  telemetry_publish :: "nat \<Rightarrow> pyval list \<Rightarrow> status"
  alarm_publish :: "nat \<Rightarrow> pyval list \<Rightarrow> status"
  location_publish :: "nat \<Rightarrow> pyval list \<Rightarrow> status"

text \<open>
  The arguments each publish method reads off a row, in the order of the call.  The
  correlation id of a telemetry sample is \<^verbatim>\<open>str(idx)\<close>; it is passed here as the key
  itself.
\<close>

definition telemetry_call :: "row \<Rightarrow> pyval list" where
  "telemetry_call t = [cell t 2, cell t 3, cell t 0, cell t 5]"

definition alarm_call :: "row \<Rightarrow> pyval list" where
  "alarm_call t =
     [cell t 2, cell t 3, cell t 4, PyBool (\<not> py_eq (cell t 5) (PyNum 0))]"

definition location_call :: "row \<Rightarrow> pyval list" where
  "location_call t = [cell t 3, cell t 4, cell t 5, cell t 6, cell t 7, cell t 8, cell t 9]"

text \<open>
  The send loop shared by the three publish methods: \<^verbatim>\<open>status\<close> and the
  dictionary \<^verbatim>\<open>update_db\<close> (in insertion order) are the loop variables, and the
  loop breaks at the first status that is not \<^verbatim>\<open>STATUS_SUCCESS\<close>.
\<close>

fun send_loop ::
  "(nat \<Rightarrow> pyval list \<Rightarrow> status) \<Rightarrow> (row \<Rightarrow> pyval list) \<Rightarrow> nat \<Rightarrow> status \<Rightarrow>
   (pyval \<times> string) list \<Rightarrow> row list \<Rightarrow> status \<times> (pyval \<times> string) list" where
  "send_loop send call n status update_db [] = (status, update_db)"
| "send_loop send call n status update_db (t # ts) =
     (let status' = send n (call t)
      in if status' \<noteq> STATUS_SUCCESS then (status', update_db)
         else send_loop send call (Suc n) status' (AList.update (cell t 0) STATE_SENT update_db) ts)"

text \<open>
  The body shared by \<^verbatim>\<open>publish_unsent_telemetry\<close>, \<^verbatim>\<open>publish_unsent_alarms\<close> and
  \<^verbatim>\<open>publish_unsent_location\<close>.  Iterating the \<^verbatim>\<open>None\<close> that a failed selection
  returns raises \<^verbatim>\<open>TypeError\<close>.  The update loop runs only when the last status is
  \<^verbatim>\<open>STATUS_SUCCESS\<close>.
\<close>

definition publish_unsent ::
  "string \<Rightarrow> (nat \<Rightarrow> pyval list \<Rightarrow> status) \<Rightarrow> (row \<Rightarrow> pyval list) \<Rightarrow> string \<Rightarrow> env \<Rightarrow>
   (error + status) \<times> env" where
  "publish_unsent table send call new_state e =
     (case select_all_by_state table STATE_UNSENT e of
        (None, e1) \<Rightarrow> (Inl TypeError, e1)
      | (Some ptr, e1) \<Rightarrow>
          (let (status, update_db) = send_loop send call 0 STATUS_FAILURE [] ptr
           in if status = STATUS_SUCCESS then
                (Inr status, update_all table new_state (map fst update_db) e1)
              else (Inr status, e1)))"

definition publish_unsent_alarms :: "client \<Rightarrow> string \<Rightarrow> env \<Rightarrow> (error + status) \<times> env" where
  "publish_unsent_alarms cl new_state e =
     publish_unsent ALARM (alarm_publish cl) alarm_call new_state e"

definition publish_unsent_telemetry :: "client \<Rightarrow> string \<Rightarrow> env \<Rightarrow> (error + status) \<times> env" where
  "publish_unsent_telemetry cl new_state e =
     publish_unsent TELEMETRY (telemetry_publish cl) telemetry_call new_state e"

definition publish_unsent_location :: "client \<Rightarrow> string \<Rightarrow> env \<Rightarrow> (error + status) \<times> env" where
  "publish_unsent_location cl new_state e =
     publish_unsent LOCATION (location_publish cl) location_call new_state e"

subsection \<open>Observations and sample stores\<close>

text \<open>The status column of every row of a table, in key order.\<close>

definition states_of :: "string \<Rightarrow> env \<Rightarrow> pyval list" where
  "states_of table e =
     map (\<lambda>r. cell r (length (columns table) - 1)) (rows (tables e table))"

text \<open>A freshly created store: four empty tables, no fault scheduled.\<close>

definition empty_env :: env where
  "empty_env = \<lparr> tables = (\<lambda>t. \<lparr>rows = [], seq = 0\<rparr>), faults = [], trace = [],
                  utcnow = ''2018-01-01 00:00:00.000000'', days_ago = (\<lambda>d. None) \<rparr>"

text \<open>The rows a publish or a smoothing pass selects: those whose status is \<^verbatim>\<open>unsent\<close>.\<close>

definition unsent_rows :: "string \<Rightarrow> env \<Rightarrow> row list" where
  "unsent_rows table e = filter (has_status table STATE_UNSENT) (rows (tables e table))"

text \<open>
  A telemetry table filled through \<^verbatim>\<open>insert\<close> with the given samples, the state
  left to the default of \<^verbatim>\<open>insert\<close>.
\<close>

definition sample :: "int \<Rightarrow> insert_args" where
  "sample v = insert_defaults\<lparr>arg_name := PyStr ''temp'', arg_value := PyNum v\<rparr>"

definition telemetry_store :: "sds \<Rightarrow> int list \<Rightarrow> env" where
  "telemetry_store self vs =
     fold (\<lambda>v e. snd (insert_sds self TELEMETRY (sample v) e)) vs empty_env"

text \<open>A client whose senders succeed, except that call number \<open>k\<close> fails.\<close>

definition failing_at :: "nat \<Rightarrow> client" where
  "failing_at k =
     \<lparr> telemetry_publish = (\<lambda>n args. if n = k then STATUS_FAILURE else STATUS_SUCCESS),
       alarm_publish = (\<lambda>n args. if n = k then STATUS_FAILURE else STATUS_SUCCESS),
       location_publish = (\<lambda>n args. if n = k then STATUS_FAILURE else STATUS_SUCCESS) \<rparr>"

text \<open>
  The marking rule in the words of the specification, over the pairs (index, value)
  of the scanned rows: \<open>previous_value\<close> starts unset; a row is marked when
  \<open>previous_value\<close> is set and the value equals it or lies within the threshold
  of it; \<open>previous_value\<close> then becomes the value.
\<close>

fun spec_scan :: "int \<Rightarrow> int option \<Rightarrow> (int \<times> int) list \<Rightarrow> int list" where
  "spec_scan threshold previous_value [] = []"
| "spec_scan threshold previous_value ((i, v) # rest) =
     (if (case previous_value of
            None \<Rightarrow> False
          | Some p \<Rightarrow> v = p \<or> (v > p \<and> v - threshold \<le> p) \<or> (v < p \<and> v + threshold \<ge> p))
      then i # spec_scan threshold (Some v) rest
      else spec_scan threshold (Some v) rest)"

text \<open>The values of one named column, read back through \<^verbatim>\<open>select_table\<close>.\<close>

definition read_column :: "string \<Rightarrow> string \<Rightarrow> env \<Rightarrow> pyval list" where
  "read_column table c e =
     (case (fst (select_table table e), col_index (columns table) c) of
        (Some rs, Some i) \<Rightarrow> map (\<lambda>r. cell r i) rs
      | _ \<Rightarrow> [])"

text \<open>A call \<^verbatim>\<open>insert_location(latitude, longitude, state=STATE_UNSENT)\<close>.\<close>

definition location_at :: "int \<Rightarrow> int \<Rightarrow> location_args" where
  "location_at a b =
     \<lparr> loc_latitude = PyNum a, loc_longitude = PyNum b, loc_speed = PyNone,
       loc_heading = PyNone, loc_altitude = PyNone, loc_accuracy = PyNone,
       loc_fix_type = PyNone, loc_msg = PyNone, loc_ts = PyNone,
       loc_state = PyStr STATE_UNSENT \<rparr>"

text \<open>
  The shape sqlite keeps a table in: keys strictly ascending, none above the
  AUTOINCREMENT counter.
\<close>

definition wf_table :: "table \<Rightarrow> bool" where
  "wf_table t = (sorted_wrt (<) (map idx (rows t)) \<and> (\<forall>r \<in> set (rows t). idx r \<le> seq t))"

text \<open>An instance with the policy \<^verbatim>\<open>STORAGE_LIMITED\<close> and the given maximum, batch and drop mode.\<close>

definition limited_sds :: "int \<Rightarrow> int \<Rightarrow> int \<Rightarrow> sds" where
  "limited_sds n b mode =
     init_sds\<lparr>retain_max_entries := n, num_to_age := b, retention_drop_mode := mode\<rparr>"

section \<open>Properties\<close>

subsection \<open>Evaluation and backend lemmas\<close>

lemmas sds_defs =
  telemetry_store_def sample_def insert_defaults_def empty_env_def init_sds_def
  insert_sds_def insert_telemetry_def insert_location_def insert_alarm_def
  is_type_valid_def table_list_def apply_retention_policy_def get_row_count_def issue_def
  insert_values_def transaction_def table_exists_def columns_def next_rowid_def
  custom_sql_command_def limit_def states_of_def cell_def set_cell_def
  select_table_def select_all_by_state_def has_status_def put_status_def
  data_smooth_on_change_def field_list_def get_table_info_def update_state_def
  insignificant_def py_eq_def py_lt_def py_gt_def py_le_def py_ge_def py_sub_def py_add_def
  publish_unsent_def publish_unsent_telemetry_def publish_unsent_alarms_def
  publish_unsent_location_def telemetry_call_def alarm_call_def location_call_def
  failing_at_def unsent_rows_def read_column_def location_at_def limited_sds_def wf_table_def Let_def

lemma issue_no_fault: "faults e = [] \<Longrightarrow> issue s e = (False, e\<lparr>trace := trace e @ [s]\<rparr>)"
  by (simp add: issue_def)

lemma get_row_count_no_fault:
  "is_type_valid table \<Longrightarrow> faults e = [] \<Longrightarrow>
   get_row_count table e = (Inr (int (length (rows (tables e table)))), e\<lparr>trace := trace e @ [CountRows table]\<rparr>)"
  by (simp add: get_row_count_def issue_no_fault)

lemma valid_exists: "is_type_valid table \<Longrightarrow> table_exists table"
  by (auto simp: is_type_valid_def table_list_def table_exists_def columns_def)

lemma filter_take_drop:
  assumes "distinct (map f rs)"
  shows "filter (\<lambda>r. f r \<notin> set (take k (map f rs))) rs = drop k rs"
proof -
  have a: "filter (\<lambda>r. f r \<notin> set (take k (map f rs))) (take k rs) = []"
    by (auto simp: filter_empty_conv take_map)
  have "distinct (map f (take k rs) @ map f (drop k rs))"
    using assms by (metis append_take_drop_id map_append)
  then have "\<And>r. r \<in> set (drop k rs) \<Longrightarrow> f r \<notin> set (take k (map f rs))"
    by (auto simp: take_map)
  then have b: "filter (\<lambda>r. f r \<notin> set (take k (map f rs))) (drop k rs) = drop k rs"
    by (simp add: filter_id_conv)
  have "filter (\<lambda>r. f r \<notin> set (take k (map f rs))) (take k rs @ drop k rs) = drop k rs"
    unfolding filter_append a b by simp
  then show ?thesis by simp
qed

lemma delete_oldest_drop:
  assumes "sorted_wrt (<) (map idx rs)" "0 \<le> n"
  shows "filter (\<lambda>r. idx r \<notin> set (limit n (sort (map idx rs)))) rs = drop (nat n) rs"
proof -
  have s: "sorted (map idx rs)" and d: "distinct (map idx rs)"
    using assms(1) strict_sorted_iff by auto
  have "sort (map idx rs) = map idx rs" using s by (simp add: sorted_sort_id)
  then show ?thesis using assms(2) d by (simp add: limit_def filter_take_drop)
qed

lemma fold_max_ge: "(m::int) \<le> fold (\<lambda>r. max (idx r)) rs m"
proof (induction rs arbitrary: m)
  case Nil
  show ?case by simp
next
  case (Cons a rs)
  have "m \<le> max (idx a) m" by simp
  also have "\<dots> \<le> fold (\<lambda>r. max (idx r)) rs (max (idx a) m)" by (rule Cons.IH)
  finally show ?case by simp
qed

lemma fold_max_mem: "r \<in> set rs \<Longrightarrow> idx r \<le> fold (\<lambda>r. max (idx r)) rs m"
proof (induction rs arbitrary: m)
  case Nil
  then show ?case by simp
next
  case (Cons a rs)
  show ?case
  proof (cases "r = a")
    case True
    have "idx a \<le> max (idx a) m" by simp
    also have "\<dots> \<le> fold (\<lambda>r. max (idx r)) rs (max (idx a) m)" by (rule fold_max_ge)
    finally show ?thesis using True by simp
  next
    case False
    then show ?thesis using Cons by simp
  qed
qed

lemma next_rowid_gt: "r \<in> set (rows t) \<Longrightarrow> idx r < next_rowid t"
  unfolding next_rowid_def using fold_max_mem[of r "rows t" "seq t"] by simp

subsection \<open>The retention step and the insert that follows\<close>

lemma retention_age_oldest:
  assumes "retention_policy self = STORAGE_LIMITED"
    and "retention_drop_mode self = STORAGE_AGE_OLDEST"
    and "is_type_valid table"
    and "faults e = []"
    and "retain_max_entries self \<le> int (length (rows (tables e table)))"
  shows "apply_retention_policy self table e =
     (Inr STATUS_SUCCESS,
      e\<lparr>trace := trace e @ [CountRows table, DeleteOldest table (num_to_age self)],
        tables := (tables e)(table := (tables e table)\<lparr>rows :=
           filter (\<lambda>r. idx r \<notin> set (limit (num_to_age self) (sort (map idx (rows (tables e table))))))
             (rows (tables e table))\<rparr>)\<rparr>)"
  using assms valid_exists[OF assms(3)]
  by (simp add: apply_retention_policy_def get_row_count_no_fault custom_sql_command_def
      transaction_def issue_no_fault Let_def)


lemma insert_values_some:
  assumes "table \<in> {TELEMETRY, LOCATION, ALARM}"
  shows "\<exists>vs. insert_values table a st ts = Some vs \<and> Suc (length vs) = length (columns table)"
  using assms by (auto simp: insert_values_def columns_def)

lemma transaction_insert:
  assumes "faults e = []" "table_exists table" "Suc (length vs) = length (columns table)"
  shows "transaction (InsertRow table vs) e =
     (STATUS_SUCCESS,
      e\<lparr>trace := trace e @ [InsertRow table vs],
        tables := (tables e)(table :=
          \<lparr>rows = rows (tables e table) @ [\<lparr>idx = next_rowid (tables e table), cols = map adapt vs\<rparr>],
           seq = next_rowid (tables e table)\<rparr>)\<rparr>)"
  using assms by (simp add: transaction_def issue_no_fault Let_def)

lemma insert_after_retention:
  assumes "is_type_valid table"
    and "apply_retention_policy self table e = (Inr ret, e1)"
    and "insert_values table a
           (if \<not> truthy (arg_state a) then PyStr STATE_SENT else arg_state a)
           (if \<not> truthy (arg_ts a) then PyStr (utcnow e) else arg_ts a) = Some vs"
    and "transaction (InsertRow table vs) e1 = (st, e2)"
  shows "insert_sds self table a e = (Inr st, e2)"
  using assms by (simp add: insert_sds_def Let_def)

lemma three_valid: "table \<in> {TELEMETRY, LOCATION, ALARM} \<Longrightarrow> is_type_valid table"
  by (auto simp: is_type_valid_def table_list_def)

subsection \<open>The send loop\<close>

lemma send_loop_fst:
  assumes "k < length ptr"
    and "\<forall>i<k. send (n + i) (call (ptr ! i)) = STATUS_SUCCESS"
    and "send (n + k) (call (ptr ! k)) \<noteq> STATUS_SUCCESS"
  shows "fst (send_loop send call n st db ptr) = send (n + k) (call (ptr ! k))"
  using assms
proof (induction ptr arbitrary: k n st db)
  case Nil
  then show ?case by simp
next
  case (Cons t ts)
  show ?case
  proof (cases k)
    case 0
    then show ?thesis using Cons.prems by (simp add: Let_def)
  next
    case (Suc j)
    have first: "send n (call t) = STATUS_SUCCESS"
      using Cons.prems(2) Suc by (metis add.right_neutral nth_Cons_0 zero_less_Suc)
    have j: "j < length ts" using Cons.prems(1) Suc by simp
    have ok: "\<forall>i<j. send (Suc n + i) (call (ts ! i)) = STATUS_SUCCESS"
    proof (intro allI impI)
      fix i assume "i < j"
      then have "Suc i < k" using Suc by simp
      then have "send (n + Suc i) (call ((t # ts) ! Suc i)) = STATUS_SUCCESS"
        using Cons.prems(2) by blast
      then show "send (Suc n + i) (call (ts ! i)) = STATUS_SUCCESS" by simp
    qed
    have bad: "send (Suc n + j) (call (ts ! j)) \<noteq> STATUS_SUCCESS"
      using Cons.prems(3) Suc by simp
    have "fst (send_loop send call (Suc n) STATUS_SUCCESS
                 (AList.update (cell t 0) STATE_SENT db) ts) = send (Suc n + j) (call (ts ! j))"
      by (rule Cons.IH[OF j ok bad])
    then show ?thesis using first Suc by (simp add: Let_def)
  qed
qed

lemma select_unsent_no_fault:
  assumes "is_type_valid table" "faults e = []"
  shows "select_all_by_state table STATE_UNSENT e =
     (Some (unsent_rows table e), e\<lparr>trace := trace e @ [SelectStatus table STATE_UNSENT]\<rparr>)"
  using assms valid_exists[OF assms(1)]
  by (simp add: select_all_by_state_def issue_no_fault unsent_rows_def)

lemma publish_unsent_stops:
  assumes "is_type_valid table" "faults e = []"
    and "k < length (unsent_rows table e)"
    and "\<forall>i<k. send i (call (unsent_rows table e ! i)) = STATUS_SUCCESS"
    and "send k (call (unsent_rows table e ! k)) \<noteq> STATUS_SUCCESS"
  shows "publish_unsent table send call new_state e =
     (Inr (send k (call (unsent_rows table e ! k))),
      e\<lparr>trace := trace e @ [SelectStatus table STATE_UNSENT]\<rparr>)"
proof -
  have "fst (send_loop send call 0 STATUS_FAILURE [] (unsent_rows table e))
          = send (0 + k) (call (unsent_rows table e ! k))"
    using assms(3,4,5) by (intro send_loop_fst) simp_all
  then obtain db where "send_loop send call 0 STATUS_FAILURE [] (unsent_rows table e)
        = (send k (call (unsent_rows table e ! k)), db)"
    by (cases "send_loop send call 0 STATUS_FAILURE [] (unsent_rows table e)") simp
  then show ?thesis
    using assms(5) select_unsent_no_fault[OF assms(1,2)]
    by (simp add: publish_unsent_def)
qed

subsection \<open>The scan\<close>

lemma scan_marked:
  assumes "scan fi ii pm lastv acc rs = Inr L"
  shows "\<exists>ms. L = acc @ ms \<and>
           (\<forall>x \<in> set ms. \<exists>j<length rs. x = cell (rs ! j) ii
                \<and> truthy ((lastv # map (\<lambda>r. cell r fi) rs) ! j))"
  using assms
proof (induction rs arbitrary: lastv acc L)
  case Nil
  then show ?case by simp
next
  case (Cons r rs)
  let ?curr = "cell r fi"
  have shift: "\<And>ms acc'. \<forall>x \<in> set ms. \<exists>j<length rs. x = cell (rs ! j) ii
                \<and> truthy ((?curr # map (\<lambda>r. cell r fi) rs) ! j)
       \<Longrightarrow> \<forall>x \<in> set ms. \<exists>j<length (r # rs). x = cell ((r # rs) ! j) ii
                \<and> truthy ((lastv # map (\<lambda>r. cell r fi) (r # rs)) ! j)"
  proof
    fix ms x
    assume h: "\<forall>x \<in> set ms. \<exists>j<length rs. x = cell (rs ! j) ii
                \<and> truthy ((?curr # map (\<lambda>r. cell r fi) rs) ! j)" and "x \<in> set ms"
    then obtain j where "j < length rs" "x = cell (rs ! j) ii"
      "truthy ((?curr # map (\<lambda>r. cell r fi) rs) ! j)" by blast
    then have "Suc j < length (r # rs) \<and> x = cell ((r # rs) ! Suc j) ii
                \<and> truthy ((lastv # map (\<lambda>r. cell r fi) (r # rs)) ! Suc j)" by simp
    then show "\<exists>j<length (r # rs). x = cell ((r # rs) ! j) ii
                \<and> truthy ((lastv # map (\<lambda>r. cell r fi) (r # rs)) ! j)" by blast
  qed
  show ?case
  proof (cases "truthy lastv \<and> insignificant ?curr lastv pm = Inr True")
    case True
    then have "scan fi ii pm ?curr (acc @ [cell r ii]) rs = Inr L"
      using Cons.prems by (simp add: Let_def)
    from Cons.IH[OF this] obtain ms where ms: "L = (acc @ [cell r ii]) @ ms"
      "\<forall>x \<in> set ms. \<exists>j<length rs. x = cell (rs ! j) ii
                \<and> truthy ((?curr # map (\<lambda>r. cell r fi) rs) ! j)" by blast
    have "\<forall>x \<in> set (cell r ii # ms). \<exists>j<length (r # rs). x = cell ((r # rs) ! j) ii
                \<and> truthy ((lastv # map (\<lambda>r. cell r fi) (r # rs)) ! j)"
      using shift[OF ms(2)] True by auto
    moreover have "L = acc @ (cell r ii # ms)" using ms(1) by simp
    ultimately show ?thesis by blast
  next
    case False
    then have "scan fi ii pm ?curr acc rs = Inr L"
      using Cons.prems by (auto simp: Let_def split: sum.splits bool.splits if_splits)
    from Cons.IH[OF this] obtain ms where ms: "L = acc @ ms"
      "\<forall>x \<in> set ms. \<exists>j<length rs. x = cell (rs ! j) ii
                \<and> truthy ((?curr # map (\<lambda>r. cell r fi) rs) ! j)" by blast
    show ?thesis using shift[OF ms(2)] ms(1) by blast
  qed
qed

lemma scan_after_false:
  assumes "scan fi 0 pm PyNone [] rs = Inr L"
    and "distinct (map idx rs)"
    and "Suc i < length rs"
    and "\<not> truthy (cell (rs ! i) fi)"
  shows "PyNum (idx (rs ! Suc i)) \<notin> set L"
proof
  assume "PyNum (idx (rs ! Suc i)) \<in> set L"
  then obtain j where j: "j < length rs" "PyNum (idx (rs ! Suc i)) = cell (rs ! j) 0"
    "truthy ((PyNone # map (\<lambda>r. cell r fi) rs) ! j)"
    using scan_marked[OF assms(1)] by auto
  then have "idx (rs ! Suc i) = idx (rs ! j)" by (simp add: cell_def)
  then have "map idx rs ! Suc i = map idx rs ! j" using j(1) assms(3) by simp
  then have "j = Suc i" using assms(2,3) j(1) by (metis length_map nth_eq_iff_index_eq)
  then show False using j(3) assms(3,4) by simp
qed

lemma update_all_keeps:
  assumes "r \<in> set (rows (tables e table))" "PyNum (idx r) \<notin> set L"
  shows "r \<in> set (rows (tables (update_all table st L e) table))"
  using assms
proof (induction L arbitrary: e)
  case Nil
  then show ?case by simp
next
  case (Cons x L)
  have "r \<in> set (rows (tables (snd (update_state table x st e)) table))"
  proof (cases x)
    case (PyNum k)
    then have "idx r \<noteq> k" using Cons.prems(2) by auto
    then have "put_status table k st r = r" by (simp add: put_status_def split: option.splits)
    then have "r \<in> put_status table k st ` set (rows (tables e table))"
      using Cons.prems(1) by force
    then show ?thesis using Cons.prems(1) PyNum
      by (auto simp: update_state_def transaction_def issue_def Let_def split: list.splits)
  qed (use Cons.prems(1) in \<open>auto simp: update_state_def transaction_def issue_def Let_def split: list.splits\<close>)
  then show ?case using Cons by simp
qed

lemma idx_column: "col_index (columns table) ''idx'' = Some ii \<Longrightarrow> ii = 0"
  by (auto simp: columns_def split: if_splits)

lemma issue_tables: "tables (snd (issue s e)) = tables e"
  by (simp add: issue_def split: list.splits)

lemma smooth_success:
  assumes "data_smooth_on_change table field_name pm state e = (Inr (Some L), e')"
  shows "\<exists>fi e2 c. col_index (columns table) field_name = Some fi
          \<and> tables e2 = tables e
          \<and> (c = [] \<or> c = unsent_rows table e)
          \<and> scan fi 0 pm PyNone [] c = Inr L
          \<and> e' = update_all table STATE_IGNORE L e2"
proof -
  obtain f1 e1 where i1: "issue (TableInfo table) e = (f1, e1)" by (cases "issue (TableInfo table) e")
  obtain f2 e2 where i2: "issue (SelectStatus table STATE_UNSENT) e1 = (f2, e2)"
    by (cases "issue (SelectStatus table STATE_UNSENT) e1")
  have t1: "tables e1 = tables e" using issue_tables[of "TableInfo table" e] i1 by simp
  have t2: "tables e2 = tables e" using issue_tables[of "SelectStatus table STATE_UNSENT" e1] i2 t1 by simp
  have q: "query (SelectStatus table STATE_UNSENT) e2 = None \<or>
           query (SelectStatus table STATE_UNSENT) e2 = Some (unsent_rows table e)"
    by (simp add: unsent_rows_def t2)
  define c where "c = (if f2 then []
      else (case query (SelectStatus table STATE_UNSENT) e2 of None \<Rightarrow> [] | Some rs \<Rightarrow> rs))"
  have cc: "c = [] \<or> c = unsent_rows table e"
    using q by (auto simp: c_def)
  have "\<exists>fi. col_index (columns table) field_name = Some fi
          \<and> scan fi 0 pm PyNone [] c = Inr L
          \<and> e' = update_all table STATE_IGNORE L e2"
    unfolding c_def using assms i1 i2
    by (simp add: data_smooth_on_change_def get_table_info_def Let_def
        split: if_splits option.splits sum.splits)
       (auto dest!: idx_column)
  then show ?thesis using t2 cc by blast
qed

subsection \<open>The shape of a table\<close>

text \<open>Every operation keeps the tables in sqlite's shape.\<close>

lemma put_status_idx: "idx (put_status table k st r) = idx r"
  by (simp add: put_status_def set_cell_def split: option.splits)

lemma wf_filter: "wf_table t \<Longrightarrow> wf_table (t\<lparr>rows := filter P (rows t)\<rparr>)"
  by (auto simp: wf_table_def sorted_wrt_filter sorted_wrt_map)

lemma wf_append:
  assumes "wf_table t"
  shows "wf_table \<lparr>rows = rows t @ [\<lparr>idx = next_rowid t, cols = vs\<rparr>], seq = next_rowid t\<rparr>"
proof -
  have a: "\<forall>r \<in> set (rows t). idx r < next_rowid t"
    using next_rowid_gt by blast
  show ?thesis
    using assms a by (auto simp: wf_table_def sorted_wrt_append)
qed

lemma exec_stmt_wf:
  assumes "exec_stmt s e = Some tbs" "\<forall>t. wf_table (tables e t)"
  shows "wf_table (tbs t)"
proof (cases s)
  case (InsertRow tn vs)
  then show ?thesis using assms wf_append[of "tables e tn" "map adapt vs"]
    by (auto simp: Let_def split: if_splits)
next
  case (UpdateStatus tn i st)
  have "idx \<circ> put_status tn k st = idx" for k
    by (rule ext) (simp add: put_status_idx)
  then show ?thesis using assms UpdateStatus
    by (auto simp: wf_table_def put_status_idx split: if_splits pyval.splits)
next
  case (DeleteOldest tn n)
  then show ?thesis using assms wf_filter[of "tables e tn"]
    by (auto simp: Let_def split: if_splits)
next
  case (DeleteOlder tn d)
  then show ?thesis using assms wf_filter[of "tables e tn"]
    by (auto simp: Let_def split: if_splits)
qed (use assms in auto)

lemma transaction_wf:
  assumes "\<forall>t. wf_table (tables e t)"
  shows "wf_table (tables (snd (transaction s e)) t)"
proof -
  have "\<forall>t. wf_table (tables (snd (issue s e)) t)"
    using assms by (simp add: issue_tables)
  then show ?thesis
    using exec_stmt_wf[of s "snd (issue s e)"] 
    by (auto simp: transaction_def Let_def split: prod.splits option.splits)
qed

lemma get_row_count_tables: "tables (snd (get_row_count table e)) = tables e"
  by (simp add: get_row_count_def case_prod_beta issue_tables)

lemma retention_wf:
  assumes "\<forall>t. wf_table (tables e t)"
  shows "wf_table (tables (snd (apply_retention_policy self table e)) t)"
proof -
  have g: "\<forall>t. wf_table (tables (snd (get_row_count table e)) t)"
    using assms by (simp add: get_row_count_tables)
  show ?thesis
    using assms g
    by (auto simp: apply_retention_policy_def custom_sql_command_def case_prod_beta
        intro!: transaction_wf split: sum.splits if_splits)
qed

lemma insert_sds_wf:
  assumes "\<forall>t. wf_table (tables e t)"
  shows "wf_table (tables (snd (insert_sds self table a e)) t)"
proof -
  have "\<forall>t. wf_table (tables (snd (apply_retention_policy self table e)) t)"
    using retention_wf[OF assms] by blast
  then show ?thesis
    using assms
    by (auto simp: insert_sds_def Let_def case_prod_beta
        intro!: transaction_wf split: sum.splits option.splits)
qed

lemma empty_env_wf: "wf_table (tables empty_env t)"
  by (simp add: empty_env_def wf_table_def)

lemma telemetry_store_wf: "wf_table (tables (telemetry_store self vs) t)"
proof -
  have "\<forall>t. wf_table (tables e t) \<Longrightarrow>
        \<forall>t. wf_table (tables (fold (\<lambda>v e. snd (insert_sds self TELEMETRY (sample v) e)) vs e) t)"
    for e
  proof (induction vs arbitrary: e)
    case Nil
    then show ?case by simp
  next
    case (Cons v vs)
    have "\<forall>t. wf_table (tables (snd (insert_sds self TELEMETRY (sample v) e)) t)"
      using insert_sds_wf [OF Cons.prems] by blast
    then show ?case using Cons.IH by simp
  qed
  then show ?thesis unfolding telemetry_store_def using empty_env_wf by blast
qed

subsection \<open>Filling a table up to the maximum\<close>

lemma transaction_faults: "faults e = [] \<Longrightarrow> faults (snd (transaction s e)) = []"
  by (simp add: transaction_def issue_no_fault split: option.splits)

lemma retention_below_max:
  assumes "retention_policy self = STORAGE_LIMITED"
    and "is_type_valid table"
    and "faults e = []"
    and "int (length (rows (tables e table))) < retain_max_entries self"
  shows "apply_retention_policy self table e =
     (Inr STATUS_SUCCESS, e\<lparr>trace := trace e @ [CountRows table]\<rparr>)"
  using assms
  by (simp add: apply_retention_policy_def get_row_count_no_fault)

lemma insert_below_max:
  assumes pol: "retention_policy self = STORAGE_LIMITED"
    and tab: "table \<in> {TELEMETRY, LOCATION, ALARM}"
    and nf: "faults e = []"
    and below: "int (length (rows (tables e table))) < retain_max_entries self"
  shows "faults (snd (insert_sds self table a e)) = []
     \<and> length (rows (tables (snd (insert_sds self table a e)) table))
         = Suc (length (rows (tables e table)))"
proof -
  let ?st = "if \<not> truthy (arg_state a) then PyStr STATE_SENT else arg_state a"
  let ?ts = "if \<not> truthy (arg_ts a) then PyStr (utcnow e) else arg_ts a"
  have valid: "is_type_valid table" using tab by (rule three_valid)
  have ex: "table_exists table" using valid by (rule valid_exists)
  define e1 where "e1 = e\<lparr>trace := trace e @ [CountRows table]\<rparr>"
  have ret: "apply_retention_policy self table e = (Inr STATUS_SUCCESS, e1)"
    unfolding e1_def by (rule retention_below_max [OF pol valid nf below])
  obtain vs where vs: "insert_values table a ?st ?ts = Some vs"
    and len: "Suc (length vs) = length (columns table)"
    using insert_values_some [OF tab] by blast
  have nf1: "faults e1 = []" using nf by (simp add: e1_def)
  obtain e2 where tr: "transaction (InsertRow table vs) e1 = (STATUS_SUCCESS, e2)"
    and r2: "rows (tables e2 table) = rows (tables e1 table)
               @ [\<lparr>idx = next_rowid (tables e1 table), cols = map adapt vs\<rparr>]"
    and f2: "faults e2 = []"
    using transaction_insert [OF nf1 ex len] nf1 by simp
  have ins: "insert_sds self table a e = (Inr STATUS_SUCCESS, e2)"
    using insert_after_retention [OF valid ret vs tr] .
  show ?thesis unfolding ins snd_conv using r2 f2 by (simp add: e1_def)
qed

lemma telemetry_store_snoc:
  "telemetry_store self (vs @ [v]) = snd (insert_sds self TELEMETRY (sample v) (telemetry_store self vs))"
  by (simp add: telemetry_store_def)

lemma telemetry_store_fill:
  assumes "retention_policy self = STORAGE_LIMITED"
    and "int (length vs) \<le> retain_max_entries self"
  shows "faults (telemetry_store self vs) = []
     \<and> length (rows (tables (telemetry_store self vs) TELEMETRY)) = length vs"
  using assms(2)
proof (induction vs rule: rev_induct)
  case Nil
  show ?case by (simp add: telemetry_store_def empty_env_def)
next
  case (snoc v vs)
  then have ih: "faults (telemetry_store self vs) = []"
    "length (rows (tables (telemetry_store self vs) TELEMETRY)) = length vs" by simp_all
  have below: "int (length (rows (tables (telemetry_store self vs) TELEMETRY)))
                 < retain_max_entries self"
    using snoc.prems ih(2) by simp
  show ?case
    unfolding telemetry_store_snoc
    using insert_below_max [OF assms(1) _ ih(1) below, of "sample v"] ih(2) by simp
qed

lemma age_oldest_step:
  assumes pol: "retention_policy self = STORAGE_LIMITED"
    and mode: "retention_drop_mode self = STORAGE_AGE_OLDEST"
    and N: "retain_max_entries self = N"
    and B: "num_to_age self = B"
    and tab: "table \<in> {TELEMETRY, LOCATION, ALARM}"
    and nf: "faults e = []"
    and wf: "wf_table (tables e table)"
    and full: "N \<le> int (length (rows (tables e table)))"
    and B0: "0 \<le> B"
  shows "fst (insert_sds self table a e) = Inr STATUS_SUCCESS
     \<and> (\<exists>k vs.
          rows (tables (snd (insert_sds self table a e)) table)
            = drop (nat B) (rows (tables e table)) @ [\<lparr>idx = k, cols = map adapt vs\<rparr>]
          \<and> insert_values table a
               (if \<not> truthy (arg_state a) then PyStr STATE_SENT else arg_state a)
               (if \<not> truthy (arg_ts a) then PyStr (utcnow e) else arg_ts a) = Some vs
          \<and> (\<forall>r \<in> set (rows (tables e table)). idx r < k))
     \<and> (int (length (rows (tables e table))) = N \<and> B \<le> N \<longrightarrow>
          int (length (rows (tables (snd (insert_sds self table a e)) table))) = N - B + 1)"
proof -
  let ?old = "rows (tables e table)"
  let ?st = "if \<not> truthy (arg_state a) then PyStr STATE_SENT else arg_state a"
  let ?ts = "if \<not> truthy (arg_ts a) then PyStr (utcnow e) else arg_ts a"
  have srt: "sorted_wrt (<) (map idx (rows (tables e table)))"
    and bnd: "\<forall>r \<in> set (rows (tables e table)). idx r \<le> seq (tables e table)"
    using wf by (simp_all add: wf_table_def)
  have valid: "is_type_valid table" using tab by (rule three_valid)
  have ex: "table_exists table" using valid by (rule valid_exists)
  define e1 where "e1 = e\<lparr>trace := trace e @ [CountRows table, DeleteOldest table B],
        tables := (tables e)(table := (tables e table)\<lparr>rows := drop (nat B) ?old\<rparr>)\<rparr>"
  have ret: "apply_retention_policy self table e = (Inr STATUS_SUCCESS, e1)"
    using retention_age_oldest[OF pol mode valid nf] full N B
      delete_oldest_drop[OF srt B0]
    by (simp add: e1_def)
  obtain vs where vs: "insert_values table a ?st ?ts = Some vs"
    and len: "Suc (length vs) = length (columns table)"
    using insert_values_some[OF tab] by blast
  have nf1: "faults e1 = []" using nf by (simp add: e1_def)
  define k where "k = next_rowid (tables e1 table)"
  define e2 where "e2 = e1\<lparr>trace := trace e1 @ [InsertRow table vs],
        tables := (tables e1)(table :=
          \<lparr>rows = rows (tables e1 table) @ [\<lparr>idx = k, cols = map adapt vs\<rparr>], seq = k\<rparr>)\<rparr>"
  have tr: "transaction (InsertRow table vs) e1 = (STATUS_SUCCESS, e2)"
    using transaction_insert[OF nf1 ex len] by (simp add: e2_def k_def)
  have ins: "insert_sds self table a e = (Inr STATUS_SUCCESS, e2)"
    using insert_after_retention[OF valid ret vs tr] .
  have rows2: "rows (tables e2 table) = drop (nat B) ?old @ [\<lparr>idx = k, cols = map adapt vs\<rparr>]"
    by (simp add: e2_def e1_def)
  have "seq (tables e1 table) < k"
    unfolding k_def next_rowid_def
    using fold_max_ge[of "seq (tables e1 table)" "rows (tables e1 table)"] by simp
  then have fresh: "\<forall>r \<in> set ?old. idx r < k"
    using bnd by (fastforce simp: e1_def)
  have cnt: "int (length ?old) = N \<and> B \<le> N \<longrightarrow> int (length (rows (tables e2 table))) = N - B + 1"
    using B0 by (auto simp: rows2)
  show ?thesis
    unfolding ins fst_conv snd_conv using rows2 vs fresh cnt by blast
qed

subsection \<open>Initial state of a row\<close>

text \<open>
  Claim C1 says that an insert whose caller supplies no state, or supplies \<^verbatim>\<open>None\<close>
  or the empty string, persists a row whose state is \<^verbatim>\<open>unsent\<close>.  The code
  replaces a false state by \<^verbatim>\<open>STATE_SENT\<close>: \<^verbatim>\<open>insert_telemetry(name, value)\<close>
  with the state omitted, and \<^verbatim>\<open>insert\<close> with the empty string as state, both
  store a row whose state is \<^verbatim>\<open>sent\<close>, while \<^verbatim>\<open>insert\<close> with the state left to
  its own default \<^verbatim>\<open>STATE_UNSENT\<close> stores \<^verbatim>\<open>unsent\<close>.
\<close>

theorem insert_false_state_is_sent:
  "fst (insert_telemetry init_sds (PyStr ''temp'') (PyNum 1) PyNone PyNone PyNone empty_env)
     = Inr STATUS_SUCCESS
   \<and> states_of TELEMETRY
       (snd (insert_telemetry init_sds (PyStr ''temp'') (PyNum 1) PyNone PyNone PyNone empty_env))
     = [PyStr STATE_SENT]
   \<and> states_of TELEMETRY
       (snd (insert_sds init_sds TELEMETRY ((sample 1)\<lparr>arg_state := PyStr []\<rparr>) empty_env))
     = [PyStr STATE_SENT]
   \<and> states_of TELEMETRY (snd (insert_sds init_sds TELEMETRY (sample 1) empty_env))
     = [PyStr STATE_UNSENT]"
  by (simp add: sds_defs)

subsection \<open>Round trip of a location\<close>

text \<open>
  Claim C3 says that a row reads back through \<^verbatim>\<open>select_table\<close> with the fields the
  caller supplied, and in particular that a location inserted with latitude \<open>a\<close>
  and longitude \<open>b\<close> reads back with longitude \<open>b\<close>.  \<^verbatim>\<open>insert_location\<close> passes
  \<^verbatim>\<open>longitude=latitude\<close>: inserted with latitude 1 and longitude 2, the row reads
  back with latitude 1 and longitude 1.
\<close>

theorem insert_location_longitude_is_latitude:
  "fst (insert_location init_sds (location_at 1 2) empty_env) = Inr STATUS_SUCCESS
   \<and> read_column LOCATION LOCATION_LATITUDE
        (snd (insert_location init_sds (location_at 1 2) empty_env)) = [PyNum 1]
   \<and> read_column LOCATION LOCATION_LONGITUDE
        (snd (insert_location init_sds (location_at 1 2) empty_env)) = [PyNum 1]"
  by (simp add: sds_defs)

subsection \<open>Change detection\<close>

text \<open>
  Claim C4 says that the rows the scan marks are updated to the state the caller
  passes, and that the marked indices are returned.  The method writes
  \<^verbatim>\<open>STATE_IGNORE\<close> whatever the caller passes: called with \<^verbatim>\<open>STATE_REMOVE\<close> on the
  samples 5, 5, it returns the index 2 and leaves row 2 in state \<^verbatim>\<open>ignore\<close>.
\<close>

theorem smooth_writes_ignore_not_mark_state:
  "fst (data_smooth_on_change TELEMETRY TELEMETRY_VALUE 0 STATE_REMOVE
          (telemetry_store init_sds [5, 5])) = Inr (Some [PyNum 2])
   \<and> states_of TELEMETRY
        (snd (data_smooth_on_change TELEMETRY TELEMETRY_VALUE 0 STATE_REMOVE
               (telemetry_store init_sds [5, 5])))
      = [PyStr STATE_UNSENT, PyStr STATE_IGNORE]"
  by (simp add: sds_defs)

text \<open>
  Claim C5 gives the marking rule: a row is marked exactly when the previous value
  is set and the value equals it or lies within the threshold of it.  The code tests
  the truth value of \<^verbatim>\<open>last\<close>, so a previous value 0 counts as unset: on the
  samples 0, 0 with threshold 0 the rule marks row 2 and the code marks nothing.
\<close>

theorem smooth_zero_previous_differs_from_rule:
  "fst (data_smooth_on_change TELEMETRY TELEMETRY_VALUE 0 STATE_IGNORE
          (telemetry_store init_sds [0, 0])) = Inr (Some [])
   \<and> spec_scan 0 None [(1, 0), (2, 0)] = [2]"
  by (simp add: sds_defs)

text \<open>The three examples of the specification, on which rule and code agree.\<close>

lemma smooth_examples:
  "fst (data_smooth_on_change TELEMETRY TELEMETRY_VALUE 0 STATE_IGNORE
          (telemetry_store init_sds [5, 5, 5])) = Inr (Some [PyNum 2, PyNum 3])"
  "fst (data_smooth_on_change TELEMETRY TELEMETRY_VALUE 2 STATE_IGNORE
          (telemetry_store init_sds [5, 6, 7])) = Inr (Some [PyNum 2, PyNum 3])"
  "fst (data_smooth_on_change TELEMETRY TELEMETRY_VALUE 2 STATE_IGNORE
          (telemetry_store init_sds [5, 10])) = Inr (Some [])"
  by (simp_all add: sds_defs)

text \<open>
  Claim C8: for a field name that is not in the registered field list, a call of
  the smoother returns at once (Python's \<^verbatim>\<open>None\<close>) and leaves the whole
  environment as it was: no statement is sent to the backend, no fault flag is
  consumed and no row changes.
\<close>

theorem smooth_unregistered_field:
  assumes "field_name \<notin> set field_list"
  shows "data_smooth_on_change table field_name plus_minus state e = (Inr None, e)"
  using assms by (simp add: data_smooth_on_change_def)

theorem smooth_unregistered_field_witness:
  "data_smooth_on_change TELEMETRY ''msg'' 0 STATE_IGNORE (telemetry_store init_sds [5, 5])
     = (Inr None, telemetry_store init_sds [5, 5])"
  using smooth_unregistered_field [of "''msg''" TELEMETRY 0 STATE_IGNORE
      "telemetry_store init_sds [5, 5]"]
  by (simp add: field_list_def)

text \<open>
  Claim C10: in the scan a previous value that is false for Python (0, \<^verbatim>\<open>None\<close>, the
  empty string) is treated as no previous value.  Whenever a call of the smoother
  returns its list, the unsent row that follows one whose compared field is false
  is not in the list, whatever the threshold and its own value, and it is still an
  unsent row of the table afterwards.
\<close>

theorem smooth_after_false_value_not_marked:
  assumes run: "data_smooth_on_change table field_name plus_minus state e
                  = (Inr (Some ignore_list), e')"
    and col: "col_index (columns table) field_name = Some fi"
    and dist: "distinct (map idx (rows (tables e table)))"
    and i: "Suc i < length (unsent_rows table e)"
    and falsy: "\<not> truthy (cell (unsent_rows table e ! i) fi)"
  shows "PyNum (idx (unsent_rows table e ! Suc i)) \<notin> set ignore_list
       \<and> unsent_rows table e ! Suc i \<in> set (unsent_rows table e')"
proof -
  let ?u = "unsent_rows table e"
  obtain e2 c where c: "tables e2 = tables e" "c = [] \<or> c = ?u"
    "scan fi 0 plus_minus PyNone [] c = Inr ignore_list"
    "e' = update_all table STATE_IGNORE ignore_list e2"
    using smooth_success[OF run] col by auto
  have du: "distinct (map idx ?u)"
    using dist by (simp add: unsent_rows_def distinct_map_filter)
  have notin: "PyNum (idx (?u ! Suc i)) \<notin> set ignore_list"
  proof (cases "c = []")
    case True
    then show ?thesis using c(3) by auto
  next
    case False
    then have "c = ?u" using c(2) by simp
    then show ?thesis using scan_after_false[OF _ du i falsy] c(3) by simp
  qed
  have mem: "?u ! Suc i \<in> set ?u" using i by simp
  then have "?u ! Suc i \<in> set (rows (tables e2 table))"
    by (simp add: unsent_rows_def c(1))
  then have "?u ! Suc i \<in> set (rows (tables e' table))"
    unfolding c(4) using notin by (rule update_all_keeps)
  moreover have "has_status table STATE_UNSENT (?u ! Suc i)"
    using mem by (simp add: unsent_rows_def)
  ultimately show ?thesis using notin by (simp add: unsent_rows_def)
qed

theorem smooth_after_false_value_not_marked_witness:
  "fst (data_smooth_on_change TELEMETRY TELEMETRY_VALUE 0 STATE_IGNORE
          (telemetry_store init_sds [5, 5, 0, 0])) = Inr (Some [PyNum 2])
   \<and> cell (unsent_rows TELEMETRY (telemetry_store init_sds [5, 5, 0, 0]) ! 2) 3 = PyNum 0
   \<and> cell (unsent_rows TELEMETRY (telemetry_store init_sds [5, 5, 0, 0]) ! 3) 3 = PyNum 0
   \<and> PyNum (idx (unsent_rows TELEMETRY (telemetry_store init_sds [5, 5, 0, 0]) ! 3))
        \<notin> set [PyNum 2]
   \<and> unsent_rows TELEMETRY (telemetry_store init_sds [5, 5, 0, 0]) ! 3
        \<in> set (unsent_rows TELEMETRY
                 (snd (data_smooth_on_change TELEMETRY TELEMETRY_VALUE 0 STATE_IGNORE
                        (telemetry_store init_sds [5, 5, 0, 0]))))"
proof -
  let ?e = "telemetry_store init_sds [5, 5, 0, 0]"
  let ?run = "data_smooth_on_change TELEMETRY TELEMETRY_VALUE 0 STATE_IGNORE ?e"
  have res: "fst ?run = Inr (Some [PyNum 2])"
    by (simp add: sds_defs)
  then have run: "?run = (Inr (Some [PyNum 2]), snd ?run)"
    by (metis prod.collapse)
  have col: "col_index (columns TELEMETRY) TELEMETRY_VALUE = Some 3"
    by (simp add: columns_def)
  have dist: "distinct (map idx (rows (tables ?e TELEMETRY)))"
    by (simp add: sds_defs)
  have i: "Suc 2 < length (unsent_rows TELEMETRY ?e)"
    by (simp add: sds_defs)
  have c2: "cell (unsent_rows TELEMETRY ?e ! 2) 3 = PyNum 0"
    by (simp add: sds_defs)
  have c3: "cell (unsent_rows TELEMETRY ?e ! 3) 3 = PyNum 0"
    by (simp add: sds_defs)
  have falsy: "\<not> truthy (cell (unsent_rows TELEMETRY ?e ! 2) 3)"
    by (simp add: c2)
  have "PyNum (idx (unsent_rows TELEMETRY ?e ! Suc 2)) \<notin> set [PyNum 2]
       \<and> unsent_rows TELEMETRY ?e ! Suc 2 \<in> set (unsent_rows TELEMETRY (snd ?run))"
    by (rule smooth_after_false_value_not_marked [OF run col dist i falsy])
  then show ?thesis using res c2 c3 by (simp add: eval_nat_numeral)
qed

subsection \<open>Row count\<close>

text \<open>
  Claim C9 says that \<^verbatim>\<open>get_row_count\<close> returns an integer for every table name,
  valid or not, without raising.  For a name that is not a supported table the
  method reads the local \<^verbatim>\<open>count\<close> before any assignment to it and raises
  \<^verbatim>\<open>UnboundLocalError\<close>; for a supported table it returns 0 when the table is
  empty and 0 when the query fails.
\<close>

theorem get_row_count_invalid_table_raises:
  "get_row_count ''bogus'' empty_env = (Inl UnboundLocalError, empty_env)
   \<and> fst (get_row_count TELEMETRY empty_env) = Inr 0
   \<and> fst (get_row_count TELEMETRY ((telemetry_store init_sds [5])\<lparr>faults := [True]\<rparr>)) = Inr 0"
  by (simp add: sds_defs)

subsection \<open>Publishing\<close>

text \<open>
  Claim C2 says that when the sender succeeds on the first \<open>k\<close> calls and fails on
  the next, the first \<open>k\<close> rows end in the success state, the others stay
  \<^verbatim>\<open>unsent\<close> and the call reports the failure.  The update loop of the publish
  methods is guarded by \<^verbatim>\<open>if status == iot.STATUS_SUCCESS\<close>, and after a failed
  send \<^verbatim>\<open>status\<close> is the failure: with three unsent rows and a sender that fails on
  its second call, the call reports the failure and all three rows, the first
  included, are still \<^verbatim>\<open>unsent\<close>.
\<close>

theorem publish_failure_first_row_stays_unsent:
  "fst (publish_unsent_telemetry (failing_at 1) STATE_SENT (telemetry_store init_sds [5, 6, 7]))
     = Inr STATUS_FAILURE
   \<and> states_of TELEMETRY
        (snd (publish_unsent_telemetry (failing_at 1) STATE_SENT
               (telemetry_store init_sds [5, 6, 7])))
      = [PyStr STATE_UNSENT, PyStr STATE_UNSENT, PyStr STATE_UNSENT]
   \<and> hd (states_of TELEMETRY
            (snd (publish_unsent_telemetry (failing_at 1) STATE_SENT
                   (telemetry_store init_sds [5, 6, 7]))))
      \<noteq> PyStr STATE_SENT"
  by (simp add: sds_defs)

text \<open>
  Claim C2 as amended: when no backend fault occurs, the sender succeeds on the
  first \<open>k\<close> unsent rows and fails on the next one, the publish method returns the
  status of the failed send and changes no row: the tables are as before, so every
  unsent row is still \<^verbatim>\<open>unsent\<close>; only the selection is added to the statements
  sent.  This holds for telemetry, alarms and locations alike.
\<close>

theorem publish_failure_updates_nothing:
  assumes "faults e = []"
  shows
   "(k < length (unsent_rows TELEMETRY e)
      \<and> (\<forall>i<k. telemetry_publish cl i (telemetry_call (unsent_rows TELEMETRY e ! i)) = STATUS_SUCCESS)
      \<and> telemetry_publish cl k (telemetry_call (unsent_rows TELEMETRY e ! k)) \<noteq> STATUS_SUCCESS
     \<longrightarrow> publish_unsent_telemetry cl new_state e =
           (Inr (telemetry_publish cl k (telemetry_call (unsent_rows TELEMETRY e ! k))),
            e\<lparr>trace := trace e @ [SelectStatus TELEMETRY STATE_UNSENT]\<rparr>))
    \<and> (k < length (unsent_rows ALARM e)
      \<and> (\<forall>i<k. alarm_publish cl i (alarm_call (unsent_rows ALARM e ! i)) = STATUS_SUCCESS)
      \<and> alarm_publish cl k (alarm_call (unsent_rows ALARM e ! k)) \<noteq> STATUS_SUCCESS
     \<longrightarrow> publish_unsent_alarms cl new_state e =
           (Inr (alarm_publish cl k (alarm_call (unsent_rows ALARM e ! k))),
            e\<lparr>trace := trace e @ [SelectStatus ALARM STATE_UNSENT]\<rparr>))
    \<and> (k < length (unsent_rows LOCATION e)
      \<and> (\<forall>i<k. location_publish cl i (location_call (unsent_rows LOCATION e ! i)) = STATUS_SUCCESS)
      \<and> location_publish cl k (location_call (unsent_rows LOCATION e ! k)) \<noteq> STATUS_SUCCESS
     \<longrightarrow> publish_unsent_location cl new_state e =
           (Inr (location_publish cl k (location_call (unsent_rows LOCATION e ! k))),
            e\<lparr>trace := trace e @ [SelectStatus LOCATION STATE_UNSENT]\<rparr>))"
proof -
  have v: "is_type_valid TELEMETRY" "is_type_valid ALARM" "is_type_valid LOCATION"
    by (simp_all add: is_type_valid_def table_list_def)
  show ?thesis
    unfolding publish_unsent_telemetry_def publish_unsent_alarms_def publish_unsent_location_def
    using publish_unsent_stops[OF v(1) assms] publish_unsent_stops[OF v(2) assms]
      publish_unsent_stops[OF v(3) assms]
    by blast
qed

theorem publish_failure_updates_nothing_witness:
  "faults (telemetry_store init_sds [5, 6, 7]) = []
   \<and> length (unsent_rows TELEMETRY (telemetry_store init_sds [5, 6, 7])) = 3
   \<and> telemetry_publish (failing_at 1) 0
        (telemetry_call (unsent_rows TELEMETRY (telemetry_store init_sds [5, 6, 7]) ! 0))
       = STATUS_SUCCESS
   \<and> publish_unsent_telemetry (failing_at 1) STATE_SENT (telemetry_store init_sds [5, 6, 7])
       = (Inr STATUS_FAILURE,
          (telemetry_store init_sds [5, 6, 7])
            \<lparr>trace := trace (telemetry_store init_sds [5, 6, 7])
                        @ [SelectStatus TELEMETRY STATE_UNSENT]\<rparr>)"
proof -
  let ?e = "telemetry_store init_sds [5, 6, 7]"
  have nf: "faults ?e = []"
    by (simp add: sds_defs)
  have len: "length (unsent_rows TELEMETRY ?e) = 3"
    by (simp add: sds_defs)
  have ok: "\<forall>i<1. telemetry_publish (failing_at 1) i
               (telemetry_call (unsent_rows TELEMETRY ?e ! i)) = STATUS_SUCCESS"
    by (simp add: failing_at_def)
  have bad: "telemetry_publish (failing_at 1) 1
               (telemetry_call (unsent_rows TELEMETRY ?e ! 1)) = STATUS_FAILURE"
    by (simp add: failing_at_def)
  have "publish_unsent_telemetry (failing_at 1) STATE_SENT ?e =
          (Inr (telemetry_publish (failing_at 1) 1
                  (telemetry_call (unsent_rows TELEMETRY ?e ! 1))),
           ?e\<lparr>trace := trace ?e @ [SelectStatus TELEMETRY STATE_UNSENT]\<rparr>)"
    using publish_failure_updates_nothing [OF nf, of 1 "failing_at 1" STATE_SENT] len ok bad
    by simp
  then show ?thesis using nf len bad by (simp add: failing_at_def)
qed

subsection \<open>Retention by count\<close>



text \<open>
  The scenario of the claim, on the telemetry table: \<open>N\<close> inserts into a new store
  leave \<open>N\<close> rows, and one more insert leaves \<open>N - B + 1\<close>: the last \<open>N - B\<close> of
  them and the new row.
\<close>

lemma limited_age_oldest_fill:
  assumes "0 \<le> B" "B \<le> N" "int (length vs) = N"
  shows "int (length (rows (tables (telemetry_store (limited_sds N B STORAGE_AGE_OLDEST) (vs @ [v]))
                         TELEMETRY))) = N - B + 1
     \<and> (\<exists>r. rows (tables (telemetry_store (limited_sds N B STORAGE_AGE_OLDEST) (vs @ [v])) TELEMETRY)
            = drop (nat B) (rows (tables (telemetry_store (limited_sds N B STORAGE_AGE_OLDEST) vs)
                                   TELEMETRY)) @ [r])"
proof -
  let ?s = "limited_sds N B STORAGE_AGE_OLDEST"
  let ?e = "telemetry_store ?s vs"
  have pol: "retention_policy ?s = STORAGE_LIMITED"
    and mode: "retention_drop_mode ?s = STORAGE_AGE_OLDEST"
    and N: "retain_max_entries ?s = N" and B: "num_to_age ?s = B"
    by (simp_all add: limited_sds_def init_sds_def)
  have tab: "TELEMETRY \<in> {TELEMETRY, LOCATION, ALARM}" by simp
  have fill: "faults ?e = []" "length (rows (tables ?e TELEMETRY)) = length vs"
    using telemetry_store_fill [OF pol, of vs] assms(3) N by simp_all
  have full: "N \<le> int (length (rows (tables ?e TELEMETRY)))"
    using fill(2) assms(3) by simp
  have cnt: "int (length (rows (tables ?e TELEMETRY))) = N"
    using fill(2) assms(3) by simp
  show ?thesis
    unfolding telemetry_store_snoc
    using age_oldest_step [OF pol mode N B tab fill(1) telemetry_store_wf full assms(1),
        of "sample v"] cnt assms(2)
    by blast
qed



end
